theory Spec2Isabelle
  imports Main
begin

section \<open>The batched queue of \<^verbatim>\<open>src/batched-queue.js\<close>\<close>

text \<open>
  The class \<^verbatim>\<open>BatchedQueue\<close> keeps its items in one array \<^verbatim>\<open>this._q\<close>, which
  it creates once and then only mutates in place, and it hands that very array to the
  listeners of its \<^verbatim>\<open>flush\<close> event. Arrays therefore live in an explicit store and
  the queue holds a reference. The environment the class talks to is part of the state
  as well: the timers that \<^verbatim>\<open>setTimeout\<close> has scheduled and the log of every call
  that leaves the class (the event emitter, the cargo handler, the debug channel).

  A leading underscore of the source is written as the prefix \<open>u_\<close>: the field
  \<^verbatim>\<open>this._q\<close> is \<open>u_q\<close>, the method \<^verbatim>\<open>_flush\<close> is \<open>u_flush\<close>.
  The numeric options are integers; \<open>None\<close> is a property that is undefined.
  Listeners and the cargo handler are the caller's code: a call to them is logged with
  what they receive, and what they do later is a further call on the queue.
\<close>

subsection \<open>Values and constants\<close>

type_synonym ref = nat
type_synonym handle = nat

datatype jsval = Undefined | Boolean bool | This

fun truthy :: "jsval \<Rightarrow> bool" where
  "truthy Undefined = False"
| "truthy (Boolean b) = b"
| "truthy This = True"

definition DEFAULT_FLUSH_LIMIT :: int where
  "DEFAULT_FLUSH_LIMIT = 10000"

definition DEFAULT_INTERVAL_THRESHOLD :: int where
  "DEFAULT_INTERVAL_THRESHOLD = 1000"

definition DEFAULT_CARGO_LIMIT :: int where
  "DEFAULT_CARGO_LIMIT = 1"

definition SAFETY_QUEUE_LIMIT :: int where
  "SAFETY_QUEUE_LIMIT = 2000000"

text \<open>\<^verbatim>\<open>v || d\<close> on a numeric option: undefined and 0 are falsy.\<close>

definition or_default :: "int option \<Rightarrow> int \<Rightarrow> int" where
  "or_default v d = (case v of None \<Rightarrow> d | Some n \<Rightarrow> if n = 0 then d else n)"

text \<open>\<^verbatim>\<open>isNaN(x)\<close>, \<^verbatim>\<open>x > 0\<close> and \<^verbatim>\<open>len >= x\<close>: undefined converts
  to NaN, and every comparison with NaN is false.\<close>

definition isNaN :: "int option \<Rightarrow> bool" where
  "isNaN x = (case x of None \<Rightarrow> True | Some n \<Rightarrow> False)"

definition gt_zero :: "int option \<Rightarrow> bool" where
  "gt_zero x = (case x of None \<Rightarrow> False | Some n \<Rightarrow> 0 < n)"

definition len_ge :: "nat \<Rightarrow> int option \<Rightarrow> bool" where
  "len_ge l x = (case x of None \<Rightarrow> False | Some n \<Rightarrow> n \<le> int l)"

text \<open>The delete count of \<^verbatim>\<open>splice(0, x)\<close>: truncated to an integer and clamped
  at 0 (and, by \<open>take\<close> and \<open>drop\<close>, at the length).\<close>

definition delete_count :: "int option \<Rightarrow> nat" where
  "delete_count x = (case x of None \<Rightarrow> 0 | Some n \<Rightarrow> nat n)"

subsection \<open>Options, log and state\<close>

record options =
  opt_limit :: "int option"
  opt_interval :: "int option"
  opt_cargo :: bool \<comment> \<open>\<^verbatim>\<open>typeof options.cargo === 'function'\<close>\<close>
  opt_cargoLimit :: "int option"
  opt_safetyLimit :: "int option"

text \<open>The object \<^verbatim>\<open>{}\<close> that replaces a falsy \<^verbatim>\<open>options\<close>.\<close>

definition no_options :: options where
  "no_options = \<lparr>opt_limit = None, opt_interval = None, opt_cargo = False,
     opt_cargoLimit = None, opt_safetyLimit = None\<rparr>"

datatype diag =
    SafetyLimitReached int \<comment> \<open>the number printed in the message\<close>
  | FlushSaturated nat \<comment> \<open>\<^verbatim>\<open>this._q.length\<close>\<close>
  | FlushInterval int \<comment> \<open>\<^verbatim>\<open>this._intervalThreshold\<close>\<close>

datatype 'a event =
    Debug diag
  | EmitFlush ref "'a list" bool
      \<comment> \<open>\<^verbatim>\<open>emit('flush', this._q, saturated)\<close>: the reference passed, what it
          holds during the call, the flag\<close>
  | CargoCall "'a list"
      \<comment> \<open>\<^verbatim>\<open>_cargoFn.call(this, chunk, resume)\<close>: the fresh array \<^verbatim>\<open>splice\<close>
          returned\<close>

record 'a world =
  heap :: "ref \<Rightarrow> 'a list" \<comment> \<open>the arrays\<close>
  u_q :: ref
  u_flushLimit :: int
  u_intervalThreshold :: int
  u_cargoMode :: bool \<comment> \<open>when true, \<^verbatim>\<open>_cargoFn\<close> is the handler\<close>
  u_cargoLimit :: "int option" \<comment> \<open>assigned in cargo mode only\<close>
  u_safetyLimit :: int
  u_flushing :: bool
  u_timer :: "handle option" \<comment> \<open>\<open>None\<close> once deleted\<close>
  timers :: "handle \<rightharpoonup> int" \<comment> \<open>scheduled by \<^verbatim>\<open>setTimeout\<close>, with the delay\<close>
  next_handle :: handle
  events :: "'a event list"

subsection \<open>Arrays, timers and the log\<close>

definition array_push :: "ref \<Rightarrow> 'a \<Rightarrow> 'a world \<Rightarrow> 'a world" where
  "array_push r v w = w\<lparr>heap := (heap w)(r := heap w r @ [v])\<rparr>"

definition array_unshift :: "ref \<Rightarrow> 'a \<Rightarrow> 'a world \<Rightarrow> 'a world" where
  "array_unshift r v w = w\<lparr>heap := (heap w)(r := v # heap w r)\<rparr>"

text \<open>\<^verbatim>\<open>a.length = 0\<close> truncates the array \<^verbatim>\<open>a\<close> itself.\<close>

definition array_truncate :: "ref \<Rightarrow> 'a world \<Rightarrow> 'a world" where
  "array_truncate r w = w\<lparr>heap := (heap w)(r := [])\<rparr>"

text \<open>\<^verbatim>\<open>a.splice(0, x)\<close> removes the first items from \<^verbatim>\<open>a\<close> and returns them in
  a new array.\<close>

definition array_splice :: "ref \<Rightarrow> int option \<Rightarrow> 'a world \<Rightarrow> 'a list \<times> 'a world" where
  "array_splice r x w =
     (take (delete_count x) (heap w r),
      w\<lparr>heap := (heap w)(r := drop (delete_count x) (heap w r))\<rparr>)"

definition setTimeout :: "int \<Rightarrow> 'a world \<Rightarrow> handle \<times> 'a world" where
  "setTimeout d w =
     (next_handle w,
      w\<lparr>timers := (timers w)(next_handle w \<mapsto> d), next_handle := Suc (next_handle w)\<rparr>)"

definition clearTimeout :: "handle \<Rightarrow> 'a world \<Rightarrow> 'a world" where
  "clearTimeout h w = w\<lparr>timers := (timers w)(h := None)\<rparr>"

definition debug :: "diag \<Rightarrow> 'a world \<Rightarrow> 'a world" where
  "debug d w = w\<lparr>events := events w @ [Debug d]\<rparr>"

definition emit_flush :: "ref \<Rightarrow> bool \<Rightarrow> 'a world \<Rightarrow> 'a world" where
  "emit_flush r sat w = w\<lparr>events := events w @ [EmitFlush r (heap w r) sat]\<rparr>"

definition call_cargoFn :: "'a list \<Rightarrow> 'a world \<Rightarrow> 'a world" where
  "call_cargoFn chunk w = w\<lparr>events := events w @ [CargoCall chunk]\<rparr>"

subsection \<open>The class\<close>

text \<open>Lines 17 to 29, the assignments of the constructor to \<^verbatim>\<open>this\<close>. The new
  array gets the reference 0 of an empty store.\<close>

definition constructor_body :: "options option \<Rightarrow> 'a world" where
  "constructor_body options0 =
     (let options = (case options0 of None \<Rightarrow> no_options | Some opts \<Rightarrow> opts) in
      \<lparr>heap = (\<lambda>r. []),
       u_q = 0,
       u_flushLimit = or_default (opt_limit options) DEFAULT_FLUSH_LIMIT,
       u_intervalThreshold = or_default (opt_interval options) DEFAULT_INTERVAL_THRESHOLD,
       u_cargoMode = opt_cargo options,
       u_cargoLimit =
         (if opt_cargo options
          then Some (or_default (opt_cargoLimit options) DEFAULT_CARGO_LIMIT) else None),
       u_safetyLimit = or_default (opt_safetyLimit options) SAFETY_QUEUE_LIMIT,
       u_flushing = True,
       u_timer = None,
       timers = Map.empty,
       next_handle = 0,
       events = []\<rparr>)"

text \<open>The accessors \<^verbatim>\<open>length\<close> and \<^verbatim>\<open>saturated\<close>.\<close>

definition length_q :: "'a world \<Rightarrow> nat" where
  "length_q w = length (heap w (u_q w))"

definition saturated :: "'a world \<Rightarrow> bool" where
  "saturated w =
     (if u_cargoMode w then len_ge (length_q w) (u_cargoLimit w)
      else len_ge (length_q w) (Some (u_flushLimit w)))"

text \<open>
  Line 108 reads the property \<^verbatim>\<open>cargoMode\<close> of the queue. The constructor assigns
  \<^verbatim>\<open>_cargoMode\<close> (lines 22 and 26) and the class declares the accessors
  \<^verbatim>\<open>length\<close> and \<^verbatim>\<open>saturated\<close> only, so neither the object nor its prototypes have
  a property of that name, and the read gives undefined.
\<close>

definition cargoMode :: "'a world \<Rightarrow> jsval" where
  "cargoMode w = Undefined"

definition u_clearTimer :: "'a world \<Rightarrow> 'a world" where
  "u_clearTimer w =
     (case u_timer w of
        None \<Rightarrow> w
      | Some h \<Rightarrow> (clearTimeout h w)\<lparr>u_timer := None\<rparr>)"

definition pause :: "'a world \<Rightarrow> jsval \<times> 'a world" where
  "pause w = (This, u_clearTimer (w\<lparr>u_flushing := False\<rparr>))"

definition u_flush :: "'a world \<Rightarrow> 'a world" where
  "u_flush w =
     (let w1 = u_clearTimer w;
          sat = saturated w1;
          w2 = (if sat then debug (FlushSaturated (length_q w1)) w1
                else debug (FlushInterval (u_intervalThreshold w1)) w1)
      in if truthy (cargoMode w2) \<and> \<not> isNaN (u_cargoLimit w2) \<and> gt_zero (u_cargoLimit w2)
         then (let (chunk, w3) = array_splice (u_q w2) (u_cargoLimit w2) w2
               in snd (pause (call_cargoFn chunk w3)))
         else array_truncate (u_q w2) (emit_flush (u_q w2) sat w2))"

definition u_flushCheck :: "'a world \<Rightarrow> 'a world" where
  "u_flushCheck w =
     (if \<not> u_flushing w then w
      else if saturated w then u_flush w
      else if u_timer w = None
        then (let (h, w1) = setTimeout (u_intervalThreshold w) w in w1\<lparr>u_timer := Some h\<rparr>)
        else w)"

definition resume :: "'a world \<Rightarrow> jsval \<times> 'a world" where
  "resume w = (This, u_flushCheck (w\<lparr>u_flushing := True\<rparr>))"

definition push :: "'a \<Rightarrow> 'a world \<Rightarrow> jsval \<times> 'a world" where
  "push val w =
     (if u_safetyLimit w < int (length_q w)
      then (This, debug (SafetyLimitReached SAFETY_QUEUE_LIMIT) w)
      else (This, u_flushCheck (array_push (u_q w) val w)))"

definition unshift :: "'a \<Rightarrow> 'a world \<Rightarrow> jsval \<times> 'a world" where
  "unshift val w =
     (if u_safetyLimit w < int (length_q w)
      then (This, debug (SafetyLimitReached SAFETY_QUEUE_LIMIT) w)
      else (This, u_flushCheck (array_unshift (u_q w) val w)))"

definition empty_q :: "'a world \<Rightarrow> jsval \<times> 'a world" where
  "empty_q w = (This, u_clearTimer (array_truncate (u_q w) w))"

subsection \<open>Construction\<close>

text \<open>
  \<^verbatim>\<open>BatchedQueue\<close> extends \<^verbatim>\<open>EventEmitter\<close>. In the constructor of a derived class
  \<^verbatim>\<open>this\<close> is bound by the call \<^verbatim>\<open>super()\<close>, and reading it before that throws a
  ReferenceError. The constructor takes the state of the binding at its first read of
  \<^verbatim>\<open>this\<close> (line 18); it contains no call of \<^verbatim>\<open>super\<close>, so \<^verbatim>\<open>new\<close>
  reaches that line with the binding uninitialised.
\<close>

datatype error = ReferenceError

datatype this_binding = Uninitialized | Initialized

definition constructor :: "this_binding \<Rightarrow> options option \<Rightarrow> error + 'a world" where
  "constructor binding options0 =
     (case binding of
        Uninitialized \<Rightarrow> Inl ReferenceError
      | Initialized \<Rightarrow> Inr (constructor_body options0))"

definition new_BatchedQueue :: "options option \<Rightarrow> error + 'a world" where
  "new_BatchedQueue options0 = constructor Uninitialized options0"

subsection \<open>Runs\<close>

text \<open>The calls a queue receives: its five public methods, and the callback of a
  scheduled timer, which is \<^verbatim>\<open>_flush\<close> bound to the queue. A timer that fires is no
  longer scheduled.\<close>

datatype 'a call = Push 'a | Unshift 'a | Empty | Pause | Resume | Fire handle

definition fire :: "handle \<Rightarrow> 'a world \<Rightarrow> 'a world" where
  "fire h w = (case timers w h of None \<Rightarrow> w | Some d \<Rightarrow> u_flush (clearTimeout h w))"

fun step :: "'a call \<Rightarrow> 'a world \<Rightarrow> 'a world" where
  "step (Push v) w = snd (push v w)"
| "step (Unshift v) w = snd (unshift v w)"
| "step Empty w = snd (empty_q w)"
| "step Pause w = snd (pause w)"
| "step Resume w = snd (resume w)"
| "step (Fire h) w = fire h w"

fun run :: "'a call list \<Rightarrow> 'a world \<Rightarrow> 'a world" where
  "run [] w = w"
| "run (c # cs) w = run cs (step c w)"

text \<open>The states the methods are verified on: the object as the assignments of the
  constructor set it up, and every state that calls lead to from there.\<close>

inductive reachable :: "'a world \<Rightarrow> bool" where
  reachable_init: "reachable (constructor_body options0)"
| reachable_step: "reachable w \<Longrightarrow> reachable (step c w)"

text \<open>Calls that enqueue, and log entries that are a flush (an event for the listeners or
  a call of the cargo handler) rather than a debug message.\<close>

fun is_enqueue :: "'a call \<Rightarrow> bool" where
  "is_enqueue (Push v) = True"
| "is_enqueue (Unshift v) = True"
| "is_enqueue c = False"

fun is_flush :: "'a event \<Rightarrow> bool" where
  "is_flush (Debug d) = False"
| "is_flush (EmitFlush r b sat) = True"
| "is_flush (CargoCall chunk) = True"

subsection \<open>Concrete configurations\<close>

text \<open>\<^verbatim>\<open>{cargo: f, cargoLimit: 2}\<close> for a function \<^verbatim>\<open>f\<close>,
  \<^verbatim>\<open>{safetyLimit: 1}\<close>, \<^verbatim>\<open>{limit: 3, interval: 1000}\<close>, and the options that
  are all 0.\<close>

definition cargo_options :: options where
  "cargo_options = \<lparr>opt_limit = None, opt_interval = None, opt_cargo = True,
     opt_cargoLimit = Some 2, opt_safetyLimit = None\<rparr>"

definition small_cap_options :: options where
  "small_cap_options = \<lparr>opt_limit = None, opt_interval = None, opt_cargo = False,
     opt_cargoLimit = None, opt_safetyLimit = Some 1\<rparr>"

definition limit3_options :: options where
  "limit3_options = \<lparr>opt_limit = Some 3, opt_interval = Some 1000, opt_cargo = False,
     opt_cargoLimit = None, opt_safetyLimit = None\<rparr>"

definition zero_options :: options where
  "zero_options = \<lparr>opt_limit = Some 0, opt_interval = Some 0, opt_cargo = False,
     opt_cargoLimit = Some 0, opt_safetyLimit = Some 0\<rparr>"

section \<open>Basic facts\<close>

lemma u_clearTimer_fields [simp]:
  "heap (u_clearTimer w) = heap w" "u_q (u_clearTimer w) = u_q w"
  "u_flushLimit (u_clearTimer w) = u_flushLimit w"
  "u_intervalThreshold (u_clearTimer w) = u_intervalThreshold w"
  "u_cargoMode (u_clearTimer w) = u_cargoMode w"
  "u_cargoLimit (u_clearTimer w) = u_cargoLimit w"
  "u_safetyLimit (u_clearTimer w) = u_safetyLimit w"
  "u_flushing (u_clearTimer w) = u_flushing w"
  "u_timer (u_clearTimer w) = None"
  "next_handle (u_clearTimer w) = next_handle w"
  "events (u_clearTimer w) = events w"
  by (simp_all add: u_clearTimer_def clearTimeout_def split: option.splits)

text \<open>Saturation depends on the buffer and on the two limits only, and grows with the
  buffer.\<close>

lemma saturated_cong:
  "heap w' (u_q w') = heap w (u_q w) \<Longrightarrow> u_cargoMode w' = u_cargoMode w \<Longrightarrow>
   u_cargoLimit w' = u_cargoLimit w \<Longrightarrow> u_flushLimit w' = u_flushLimit w \<Longrightarrow>
   saturated w' = saturated w"
  by (simp add: saturated_def length_q_def)

lemma length_q_update [simp]:
  "length_q (w\<lparr>u_flushing := b\<rparr>) = length_q w"
  "length_q (w\<lparr>u_timer := t\<rparr>) = length_q w"
  "length_q (w\<lparr>timers := ts\<rparr>) = length_q w"
  "length_q (w\<lparr>next_handle := n\<rparr>) = length_q w"
  "length_q (w\<lparr>events := es\<rparr>) = length_q w"
  by (simp_all add: length_q_def)

lemma saturated_update [simp]:
  "saturated (w\<lparr>u_flushing := b\<rparr>) = saturated w"
  "saturated (w\<lparr>u_timer := t\<rparr>) = saturated w"
  "saturated (w\<lparr>timers := ts\<rparr>) = saturated w"
  "saturated (w\<lparr>next_handle := n\<rparr>) = saturated w"
  "saturated (w\<lparr>events := es\<rparr>) = saturated w"
  by (simp_all add: saturated_def)

lemma saturated_mono:
  assumes "saturated (w\<lparr>heap := (heap w)(u_q w := xs)\<rparr>)" and "length xs \<le> length ys"
  shows "saturated (w\<lparr>heap := (heap w)(u_q w := ys)\<rparr>)"
  using assms by (auto simp: saturated_def length_q_def len_ge_def split: option.splits if_splits)

text \<open>What \<^verbatim>\<open>_flush\<close> does in every state: the condition of line 108 is false, so the
  second branch runs, in cargo mode too.\<close>

lemma u_flush_eq:
  "u_flush w =
     (u_clearTimer w)\<lparr>heap := (heap w)(u_q w := []),
        events := events w @
          [Debug (if saturated w then FlushSaturated (length_q w)
                  else FlushInterval (u_intervalThreshold w)),
           EmitFlush (u_q w) (heap w (u_q w)) (saturated w)]\<rparr>"
  by (simp add: u_flush_def Let_def cargoMode_def debug_def emit_flush_def array_truncate_def
      saturated_cong [of "u_clearTimer w" w] length_q_def)

lemmas eval_defs = constructor_body_def no_options_def or_default_def
  DEFAULT_FLUSH_LIMIT_def DEFAULT_INTERVAL_THRESHOLD_def DEFAULT_CARGO_LIMIT_def
  SAFETY_QUEUE_LIMIT_def push_def unshift_def empty_q_def pause_def resume_def
  u_flushCheck_def u_flush_eq u_clearTimer_def clearTimeout_def setTimeout_def
  array_push_def array_unshift_def array_truncate_def debug_def
  saturated_def length_q_def len_ge_def fire_def Let_def

lemma run_append: "run (cs @ ds) w = run ds (run cs w)"
  by (induction cs arbitrary: w) simp_all

subsection \<open>The timer\<close>

text \<open>Between calls, a timer is held only while flushing is enabled, and the timer in
  \<^verbatim>\<open>_timer\<close> is the one timer that is scheduled.\<close>

lemma step_timer:
  assumes "(u_timer w \<noteq> None \<longrightarrow> u_flushing w) \<and> dom (timers w) = set_option (u_timer w)"
  shows "(u_timer (step c w) \<noteq> None \<longrightarrow> u_flushing (step c w)) \<and>
         dom (timers (step c w)) = set_option (u_timer (step c w))"
proof (cases c)
  case (Push v)
  with assms show ?thesis
    by (auto simp: push_def u_flushCheck_def u_flush_eq u_clearTimer_def clearTimeout_def
        setTimeout_def array_push_def debug_def Let_def split: option.splits)
next
  case (Unshift v)
  with assms show ?thesis
    by (auto simp: unshift_def u_flushCheck_def u_flush_eq u_clearTimer_def clearTimeout_def
        setTimeout_def array_unshift_def debug_def Let_def split: option.splits)
next
  case Empty
  with assms show ?thesis
    by (auto simp: empty_q_def u_clearTimer_def clearTimeout_def array_truncate_def
        split: option.splits)
next
  case Pause
  with assms show ?thesis
    by (auto simp: pause_def u_clearTimer_def clearTimeout_def split: option.splits)
next
  case Resume
  with assms show ?thesis
    by (auto simp: resume_def u_flushCheck_def u_flush_eq u_clearTimer_def clearTimeout_def
        setTimeout_def Let_def split: option.splits)
next
  case (Fire h)
  with assms show ?thesis
    by (auto simp: fire_def u_flush_eq u_clearTimer_def clearTimeout_def split: option.splits)
qed

lemma reachable_timer:
  "reachable w \<Longrightarrow>
     (u_timer w \<noteq> None \<longrightarrow> u_flushing w) \<and> dom (timers w) = set_option (u_timer w)"
proof (induction rule: reachable.induct)
  case (reachable_init options0)
  show ?case by (simp add: constructor_body_def Let_def)
next
  case (reachable_step w c)
  from reachable_step.IH show ?case by (rule step_timer)
qed

lemma u_flushCheck_timer:
  assumes "u_timer w \<noteq> None \<longrightarrow> u_flushing w"
  shows "u_timer (u_flushCheck w) \<noteq> None \<longleftrightarrow> u_flushing w \<and> \<not> saturated w"
  using assms by (auto simp: u_flushCheck_def u_flush_eq setTimeout_def Let_def)

subsection \<open>Pushes that do not saturate\<close>

text \<open>
  Pushes onto a queue that flushes, none of them dropped and none of them saturating the
  buffer: the items are appended, the first push arms a timer if none is pending, and
  nothing else changes.
\<close>

lemma pushes_unsaturated:
  assumes "u_flushing w"
    and "int (length_q w) + int (length xs) \<le> u_safetyLimit w + 1"
    and "\<not> saturated (w\<lparr>heap := (heap w)(u_q w := heap w (u_q w) @ xs)\<rparr>)"
  shows "run (map Push xs) w =
     (if u_timer w = None \<and> xs \<noteq> []
      then w\<lparr>heap := (heap w)(u_q w := heap w (u_q w) @ xs),
             u_timer := Some (next_handle w),
             timers := (timers w)(next_handle w \<mapsto> u_intervalThreshold w),
             next_handle := Suc (next_handle w)\<rparr>
      else w\<lparr>heap := (heap w)(u_q w := heap w (u_q w) @ xs)\<rparr>)"
  using assms
proof (induction xs rule: rev_induct)
  case Nil
  then show ?case by simp
next
  case (snoc x xs)
  have s2: "\<not> saturated (w\<lparr>heap := (heap w)(u_q w := heap w (u_q w) @ xs @ [x])\<rparr>)"
    using snoc.prems(3) .
  have ns: "\<not> saturated (w\<lparr>heap := (heap w)(u_q w := heap w (u_q w) @ xs)\<rparr>)"
  proof
    assume "saturated (w\<lparr>heap := (heap w)(u_q w := heap w (u_q w) @ xs)\<rparr>)"
    then have "saturated (w\<lparr>heap := (heap w)(u_q w := heap w (u_q w) @ xs @ [x])\<rparr>)"
      by (rule saturated_mono) simp
    with s2 show False ..
  qed
  have len: "int (length_q w) + int (length xs) \<le> u_safetyLimit w"
    using snoc.prems(2) by simp
  have IH: "run (map Push xs) w =
     (if u_timer w = None \<and> xs \<noteq> []
      then w\<lparr>heap := (heap w)(u_q w := heap w (u_q w) @ xs),
             u_timer := Some (next_handle w),
             timers := (timers w)(next_handle w \<mapsto> u_intervalThreshold w),
             next_handle := Suc (next_handle w)\<rparr>
      else w\<lparr>heap := (heap w)(u_q w := heap w (u_q w) @ xs)\<rparr>)"
    using snoc.IH [OF snoc.prems(1) _ ns] len by simp
  define W where "W = run (map Push xs) w"
  define A where "A = array_push (u_q W) x W"
  have W: "W = (if u_timer w = None \<and> xs \<noteq> []
      then w\<lparr>heap := (heap w)(u_q w := heap w (u_q w) @ xs),
             u_timer := Some (next_handle w),
             timers := (timers w)(next_handle w \<mapsto> u_intervalThreshold w),
             next_handle := Suc (next_handle w)\<rparr>
      else w\<lparr>heap := (heap w)(u_q w := heap w (u_q w) @ xs)\<rparr>)"
    unfolding W_def by (rule IH)
  have Wf: "u_q W = u_q w" "u_flushing W" "u_safetyLimit W = u_safetyLimit w"
    "heap W = (heap w)(u_q w := heap w (u_q w) @ xs)"
    "u_cargoMode W = u_cargoMode w" "u_cargoLimit W = u_cargoLimit w"
    "u_flushLimit W = u_flushLimit w" "u_intervalThreshold W = u_intervalThreshold w"
    using snoc.prems(1) by (simp_all add: W)
  have nodrop: "\<not> u_safetyLimit W < int (length_q W)"
    using len by (simp add: length_q_def Wf)
  have A: "A = W\<lparr>heap := (heap w)(u_q w := heap w (u_q w) @ xs @ [x])\<rparr>"
    by (simp add: A_def array_push_def Wf)
  have "saturated A = saturated (w\<lparr>heap := (heap w)(u_q w := heap w (u_q w) @ xs @ [x])\<rparr>)"
    by (rule saturated_cong) (simp_all add: A Wf)
  with s2 have nsA: "\<not> saturated A" by simp
  have "run (map Push (xs @ [x])) w = snd (push x W)"
    by (simp add: run_append W_def)
  also have "\<dots> = u_flushCheck A"
    using nodrop by (simp add: push_def A_def)
  also have "\<dots> = (if u_timer A = None
        then A\<lparr>timers := (timers A)(next_handle A \<mapsto> u_intervalThreshold A),
               next_handle := Suc (next_handle A), u_timer := Some (next_handle A)\<rparr>
        else A)"
    using nsA Wf(2) by (simp add: u_flushCheck_def setTimeout_def A)
  finally have R: "run (map Push (xs @ [x])) w = (if u_timer A = None
        then A\<lparr>timers := (timers A)(next_handle A \<mapsto> u_intervalThreshold A),
               next_handle := Suc (next_handle A), u_timer := Some (next_handle A)\<rparr>
        else A)" .
  have "run (map Push (xs @ [x])) w =
     (if u_timer w = None \<and> xs @ [x] \<noteq> []
      then w\<lparr>heap := (heap w)(u_q w := heap w (u_q w) @ xs @ [x]),
             u_timer := Some (next_handle w),
             timers := (timers w)(next_handle w \<mapsto> u_intervalThreshold w),
             next_handle := Suc (next_handle w)\<rparr>
      else w\<lparr>heap := (heap w)(u_q w := heap w (u_q w) @ xs @ [x])\<rparr>)"
  proof (cases "u_timer w = None \<and> xs \<noteq> []")
    case True
    then show ?thesis unfolding R by (simp add: A W)
  next
    case False
    then show ?thesis unfolding R by (auto simp add: A W)
  qed
  then show ?case .
qed

subsection \<open>Enqueueing while paused\<close>

lemma paused_enqueue:
  assumes "\<not> u_flushing w" and "is_enqueue c"
  shows "\<not> u_flushing (step c w) \<and> u_timer (step c w) = u_timer w \<and>
         filter is_flush (events (step c w)) = filter is_flush (events w)"
  using assms
  by (cases c) (simp_all add: push_def unshift_def u_flushCheck_def debug_def array_push_def
      array_unshift_def)

lemma paused_enqueues:
  assumes "\<not> u_flushing w" and "\<forall>c\<in>set cs. is_enqueue c"
  shows "\<not> u_flushing (run cs w) \<and> u_timer (run cs w) = u_timer w \<and>
         filter is_flush (events (run cs w)) = filter is_flush (events w)"
  using assms
proof (induction cs arbitrary: w)
  case Nil
  then show ?case by simp
next
  case (Cons c cs)
  from Cons.prems have s: "\<not> u_flushing (step c w) \<and> u_timer (step c w) = u_timer w \<and>
         filter is_flush (events (step c w)) = filter is_flush (events w)"
    by (simp add: paused_enqueue)
  with Cons.IH [of "step c w"] Cons.prems(2) show ?case by simp
qed

subsection \<open>What holds in every reachable state\<close>

text \<open>
  The cargo handler is never called, and the buffer holds at most one item more than
  \<^verbatim>\<open>_safetyLimit\<close>.
\<close>

lemma step_no_cargo:
  "\<forall>chunk. CargoCall chunk \<notin> set (events w) \<Longrightarrow>
   \<forall>chunk. CargoCall chunk \<notin> set (events (step c w))"
  by (cases c)
    (auto simp: push_def unshift_def empty_q_def pause_def resume_def fire_def u_flushCheck_def
      u_flush_eq setTimeout_def debug_def array_push_def array_unshift_def array_truncate_def
      clearTimeout_def Let_def split: option.splits)

lemma cargoFn_never_called:
  "reachable w \<Longrightarrow> \<forall>chunk. CargoCall chunk \<notin> set (events w)"
proof (induction rule: reachable.induct)
  case (reachable_init options0)
  show ?case by (simp add: constructor_body_def Let_def)
next
  case (reachable_step w c)
  from reachable_step.IH show ?case by (rule step_no_cargo)
qed

lemma step_length_bound:
  assumes "int (length_q w) \<le> max 0 (u_safetyLimit w + 1)"
  shows "int (length_q (step c w)) \<le> max 0 (u_safetyLimit (step c w) + 1)"
  using assms
  by (cases c)
    (auto simp: push_def unshift_def empty_q_def pause_def resume_def fire_def u_flushCheck_def
      u_flush_eq setTimeout_def debug_def array_push_def array_unshift_def array_truncate_def
      clearTimeout_def length_q_def Let_def split: option.splits)

lemma length_q_bound:
  "reachable w \<Longrightarrow> int (length_q w) \<le> max 0 (u_safetyLimit w + 1)"
proof (induction rule: reachable.induct)
  case (reachable_init options0)
  show ?case by (simp add: constructor_body_def length_q_def Let_def)
next
  case (reachable_step w c)
  from reachable_step.IH show ?case by (rule step_length_bound)
qed

text \<open>
  The assignments of the constructor put the defaults in place of options that are absent
  or 0.
\<close>

lemma constructor_body_defaults:
  "(constructor_body None :: 'a world) =
     \<lparr>heap = (\<lambda>r. []), u_q = 0, u_flushLimit = 10000, u_intervalThreshold = 1000,
      u_cargoMode = False, u_cargoLimit = None, u_safetyLimit = 2000000, u_flushing = True,
      u_timer = None, timers = Map.empty, next_handle = 0, events = []\<rparr>"
  "(constructor_body (Some zero_options) :: 'a world) = constructor_body None"
  "u_cargoLimit (constructor_body (Some (zero_options\<lparr>opt_cargo := True\<rparr>)) :: 'a world) = Some 1"
  by (simp_all add: constructor_body_def no_options_def zero_options_def or_default_def
      DEFAULT_FLUSH_LIMIT_def DEFAULT_INTERVAL_THRESHOLD_def DEFAULT_CARGO_LIMIT_def
      SAFETY_QUEUE_LIMIT_def)

section \<open>The claims\<close>

text \<open>
  C1 (fails on the code). The claim: in cargo mode every flush passes the first
  \<open>min(cargoChunkSize, length)\<close> items to the cargo handler and pauses the queue, so with
  chunk size \<open>N\<close> pushing \<open>2N\<close> items gives two handler calls of \<open>N\<close> items.
  On the queue set up for \<^verbatim>\<open>{cargo: f, cargoLimit: 2}\<close>, pushing 1, 2, 3, 4 never calls
  the handler: each saturation emits a \<^verbatim>\<open>flush\<close> event with the whole buffer,
  because line 108 tests \<^verbatim>\<open>this.cargoMode\<close> where the field is \<^verbatim>\<open>this._cargoMode\<close>.
\<close>

theorem cargo_handler_not_called:
  "events (run [Push (1::nat), Push 2, Push 3, Push 4] (constructor_body (Some cargo_options))) =
     [Debug (FlushSaturated 2), EmitFlush 0 [1, 2] True,
      Debug (FlushSaturated 2), EmitFlush 0 [3, 4] True]"
  by (simp add: cargo_options_def eval_defs)

text \<open>
  C2 (fails on the code). The claim: the buffer length never exceeds \<open>safetyLimit\<close> after a
  push or unshift. The guard of lines 48 and 61 is \<^verbatim>\<open>length > safetyLimit\<close>, so a buffer
  that has reached the limit takes one more item: with \<^verbatim>\<open>{safetyLimit: 1}\<close> two pushes
  leave two items queued.
\<close>

theorem push_past_safetyLimit:
  "u_safetyLimit (constructor_body (Some small_cap_options) :: nat world) = 1 \<and>
   length_q (run [Push (1::nat), Push 2] (constructor_body (Some small_cap_options))) = 2"
  by (simp add: small_cap_options_def eval_defs)

text \<open>
  C3 (amended). In every reachable state a pending timer implies that flushing is enabled,
  and the timer in \<^verbatim>\<open>_timer\<close> is the only one scheduled. Right after the flush-check of
  a resume, or of a push or unshift that is not dropped, a timer is pending if and only if
  flushing is enabled and the buffer was not saturated at that check. The buffer need not
  hold anything at that check.
\<close>

theorem timer_pending_after_flushCheck:
  assumes "reachable w"
  shows "(u_timer w \<noteq> None \<longrightarrow> u_flushing w) \<and>
         dom (timers w) = set_option (u_timer w) \<and>
         (u_timer (snd (resume w)) \<noteq> None \<longleftrightarrow> \<not> saturated w) \<and>
         (int (length_q w) \<le> u_safetyLimit w \<longrightarrow>
            (u_timer (snd (push v w)) \<noteq> None \<longleftrightarrow>
               u_flushing w \<and> \<not> saturated (array_push (u_q w) v w)) \<and>
            (u_timer (snd (unshift v w)) \<noteq> None \<longleftrightarrow>
               u_flushing w \<and> \<not> saturated (array_unshift (u_q w) v w)))"
proof -
  from assms have inv: "u_timer w \<noteq> None \<longrightarrow> u_flushing w"
    and d: "dom (timers w) = set_option (u_timer w)"
    using reachable_timer by blast+
  have r: "u_timer (snd (resume w)) \<noteq> None \<longleftrightarrow> \<not> saturated w"
    using u_flushCheck_timer [of "w\<lparr>u_flushing := True\<rparr>"]
      saturated_cong [of "w\<lparr>u_flushing := True\<rparr>" w]
    by (simp add: resume_def)
  have p: "u_timer (snd (push v w)) \<noteq> None \<longleftrightarrow>
             u_flushing w \<and> \<not> saturated (array_push (u_q w) v w)"
    if "int (length_q w) \<le> u_safetyLimit w"
    using that inv u_flushCheck_timer [of "array_push (u_q w) v w"]
    by (simp add: push_def array_push_def)
  have u: "u_timer (snd (unshift v w)) \<noteq> None \<longleftrightarrow>
             u_flushing w \<and> \<not> saturated (array_unshift (u_q w) v w)"
    if "int (length_q w) \<le> u_safetyLimit w"
    using that inv u_flushCheck_timer [of "array_unshift (u_q w) v w"]
    by (simp add: unshift_def array_unshift_def)
  from inv d r p u show ?thesis by blast
qed

theorem timer_pending_after_flushCheck_witness:
  "reachable (run [Push (1::nat)] (constructor_body None)) \<and>
   u_timer (run [Push (1::nat)] (constructor_body None)) = Some 0 \<and>
   u_flushing (run [Push (1::nat)] (constructor_body None)) \<and>
   dom (timers (run [Push (1::nat)] (constructor_body None))) = {0} \<and>
   int (length_q (run [Push (1::nat)] (constructor_body None)))
     \<le> u_safetyLimit (run [Push (1::nat)] (constructor_body None)) \<and>
   u_timer (snd (push 2 (run [Push (1::nat)] (constructor_body None)))) \<noteq> None \<and>
   \<not> saturated (array_push 0 2 (run [Push (1::nat)] (constructor_body None)))"
proof -
  let ?w = "run [Push (1::nat)] (constructor_body None)"
  have "reachable (step (Push (1::nat)) (constructor_body None))"
    by (rule reachable_step) (rule reachable_init)
  then have r: "reachable ?w" by simp
  have a: "u_timer ?w = Some 0" "int (length_q ?w) \<le> u_safetyLimit ?w" "u_q ?w = 0"
    "\<not> saturated (array_push 0 2 ?w)"
    by (simp_all add: eval_defs)
  from timer_pending_after_flushCheck [OF r, of 2] a
  have t: "u_flushing ?w" "dom (timers ?w) = set_option (Some 0)"
    "u_timer (snd (push 2 ?w)) \<noteq> None"
    by auto
  from t(2) have "dom (timers ?w) = {0}" by simp
  with r a t show ?thesis by blast
qed

text \<open>
  C3 as stated fails. On a new queue \<^verbatim>\<open>resume()\<close> runs the flush-check on an empty
  buffer and arms a timer, and when that timer fires an empty batch is emitted. After a
  push and \<^verbatim>\<open>empty()\<close> no timer is pending, although flushing is enabled and the last
  flush-check saw a buffer that was neither empty nor saturated.
\<close>

theorem timer_pending_counterexample:
  "length_q (constructor_body None :: nat world) = 0 \<and>
   snd (resume (constructor_body None :: nat world)) = u_flushCheck (constructor_body None) \<and>
   u_timer (u_flushCheck (constructor_body None :: nat world)) = Some 0 \<and>
   timers (u_flushCheck (constructor_body None :: nat world)) 0 = Some 1000 \<and>
   events (run [Resume, Fire 0] (constructor_body None :: nat world))
     = [Debug (FlushInterval 1000), EmitFlush 0 [] False] \<and>
   u_flushing (run [Push 1, Empty] (constructor_body None :: nat world)) \<and>
   u_timer (run [Push 1] (constructor_body None :: nat world)) = Some 0 \<and>
   u_timer (run [Push 1, Empty] (constructor_body None :: nat world)) = None"
  by (simp add: eval_defs)

text \<open>
  C4 (amended). In non-cargo mode every flush emits the buffer array itself, which holds
  the entire buffer during the call, together with the saturation flag, and then clears the
  buffer by truncating that same array: the array handed to the listeners is empty once the
  flush returns, and no other array changes.
\<close>

theorem flush_truncates_emitted_array:
  assumes "\<not> u_cargoMode w"
  shows "events (u_flush w) = events w @
           [Debug (if saturated w then FlushSaturated (length_q w)
                   else FlushInterval (u_intervalThreshold w)),
            EmitFlush (u_q w) (heap w (u_q w)) (saturated w)] \<and>
         u_q (u_flush w) = u_q w \<and>
         heap (u_flush w) = (heap w)(u_q w := []) \<and>
         length_q (u_flush w) = 0"
  by (simp add: u_flush_eq length_q_def)

theorem flush_truncates_emitted_array_witness:
  "\<not> u_cargoMode (run [Push (1::nat), Push 2] (constructor_body (Some limit3_options))) \<and>
   events (u_flush (run [Push (1::nat), Push 2] (constructor_body (Some limit3_options))))
     = [Debug (FlushInterval 1000), EmitFlush 0 [1, 2] False] \<and>
   heap (u_flush (run [Push (1::nat), Push 2] (constructor_body (Some limit3_options)))) 0 = []"
proof -
  have h: "\<not> u_cargoMode (run [Push (1::nat), Push 2] (constructor_body (Some limit3_options)))"
    by (simp add: limit3_options_def eval_defs)
  have e: "events (run [Push (1::nat), Push 2] (constructor_body (Some limit3_options))) = []"
    "heap (run [Push (1::nat), Push 2] (constructor_body (Some limit3_options))) 0 = [1, 2]"
    "u_q (run [Push (1::nat), Push 2] (constructor_body (Some limit3_options))) = 0"
    "u_intervalThreshold (run [Push (1::nat), Push 2] (constructor_body (Some limit3_options))) = 1000"
    "\<not> saturated (run [Push (1::nat), Push 2] (constructor_body (Some limit3_options)))"
    by (simp_all add: limit3_options_def eval_defs)
  show ?thesis using h e flush_truncates_emitted_array [OF h] by simp
qed

text \<open>
  C4 as stated fails. With \<^verbatim>\<open>{limit: 3, interval: 1000}\<close> the third push emits the
  array at reference 0 holding 1, 2, 3; when the push returns that array is empty, and the
  next push puts 4 into it.
\<close>

theorem emitted_batch_mutated:
  "events (run [Push (1::nat), Push 2, Push 3] (constructor_body (Some limit3_options)))
     = [Debug (FlushSaturated 3), EmitFlush 0 [1, 2, 3] True] \<and>
   heap (run [Push (1::nat), Push 2, Push 3] (constructor_body (Some limit3_options))) 0 = [] \<and>
   heap (run [Push (1::nat), Push 2, Push 3, Push 4] (constructor_body (Some limit3_options))) 0
     = [4]"
  by (simp add: limit3_options_def eval_defs)

text \<open>
  C5. A non-cargo queue that flushes, with an empty buffer and a size threshold \<open>L \<ge> 1\<close>
  below the safety limit, is pushed \<open>L\<close> items \<open>xs\<close>. After fewer than \<open>L\<close> of them
  nothing has been logged and the buffer holds the items pushed so far. The push of the last
  one logs one flush, with all of \<open>xs\<close> in insertion order and the flag true, and returns
  with the buffer empty.
\<close>

theorem pushing_limit_items_flushes:
  assumes "\<not> u_cargoMode w" and "u_flushing w" and "heap w (u_q w) = []"
    and "xs \<noteq> []" and "u_flushLimit w = int (length xs)"
    and "int (length xs) < u_safetyLimit w"
  shows "(\<forall>n<length xs. events (run (map Push (take n xs)) w) = events w \<and>
            heap (run (map Push (take n xs)) w) (u_q w) = take n xs) \<and>
         events (run (map Push xs) w) = events w @
            [Debug (FlushSaturated (length xs)), EmitFlush (u_q w) xs True] \<and>
         length_q (run (map Push xs) w) = 0"
proof -
  have pre: "run (map Push ys) w =
      (if u_timer w = None \<and> ys \<noteq> []
       then w\<lparr>heap := (heap w)(u_q w := ys),
              u_timer := Some (next_handle w),
              timers := (timers w)(next_handle w \<mapsto> u_intervalThreshold w),
              next_handle := Suc (next_handle w)\<rparr>
       else w\<lparr>heap := (heap w)(u_q w := ys)\<rparr>)"
    if "length ys < length xs" for ys
  proof -
    have "\<not> saturated (w\<lparr>heap := (heap w)(u_q w := heap w (u_q w) @ ys)\<rparr>)"
      using that assms(1,3,5) by (simp add: saturated_def length_q_def len_ge_def)
    moreover have "int (length_q w) + int (length ys) \<le> u_safetyLimit w + 1"
      using that assms(3,6) by (simp add: length_q_def)
    ultimately show ?thesis
      using pushes_unsaturated [OF assms(2), of ys] assms(3) by simp
  qed
  have quiet: "events (run (map Push (take n xs)) w) = events w \<and>
      heap (run (map Push (take n xs)) w) (u_q w) = take n xs" if "n < length xs" for n
    using that pre [of "take n xs"] by simp
  define W where "W = run (map Push (butlast xs)) w"
  have W: "W = (if u_timer w = None \<and> butlast xs \<noteq> []
       then w\<lparr>heap := (heap w)(u_q w := butlast xs),
              u_timer := Some (next_handle w),
              timers := (timers w)(next_handle w \<mapsto> u_intervalThreshold w),
              next_handle := Suc (next_handle w)\<rparr>
       else w\<lparr>heap := (heap w)(u_q w := butlast xs)\<rparr>)"
    unfolding W_def using pre [of "butlast xs"] assms(4) by simp
  have Wf: "u_q W = u_q w" "u_flushing W" "u_safetyLimit W = u_safetyLimit w"
    "heap W (u_q w) = butlast xs" "\<not> u_cargoMode W"
    "u_flushLimit W = u_flushLimit w" "events W = events w"
    using assms(1,2) by (simp_all add: W)
  define A where "A = array_push (u_q W) (last xs) W"
  have Af: "u_q A = u_q w" "heap A (u_q w) = xs" "events A = events w" "u_flushing A"
    "\<not> u_cargoMode A" "u_flushLimit A = int (length xs)"
    using assms(4,5) Wf by (simp_all add: A_def array_push_def)
  have satA: "saturated A"
    by (simp add: saturated_def length_q_def len_ge_def Af)
  have "run (map Push xs) w = run (map Push (butlast xs @ [last xs])) w"
    using assms(4) by simp
  also have "\<dots> = snd (push (last xs) W)"
    unfolding map_append run_append W_def by simp
  also have "\<dots> = u_flushCheck A"
    using assms(4,6) by (simp add: push_def A_def length_q_def Wf)
  also have "\<dots> = u_flush A"
    using satA Af(4) by (simp add: u_flushCheck_def)
  finally have R: "run (map Push xs) w = u_flush A" .
  have "events (run (map Push xs) w) = events w @
            [Debug (FlushSaturated (length xs)), EmitFlush (u_q w) xs True]"
    unfolding R using satA by (simp add: u_flush_eq Af length_q_def)
  moreover have "length_q (run (map Push xs) w) = 0"
    unfolding R by (simp add: u_flush_eq length_q_def)
  ultimately show ?thesis using quiet by blast
qed

theorem pushing_limit_items_flushes_witness:
  "\<not> u_cargoMode (constructor_body (Some limit3_options) :: nat world) \<and>
   u_flushing (constructor_body (Some limit3_options) :: nat world) \<and>
   u_flushLimit (constructor_body (Some limit3_options) :: nat world) = int (length [1::nat, 2, 3]) \<and>
   events (run (map Push (take 2 [1::nat, 2, 3])) (constructor_body (Some limit3_options))) = [] \<and>
   heap (run (map Push (take 2 [1::nat, 2, 3])) (constructor_body (Some limit3_options))) 0 = [1, 2] \<and>
   events (run (map Push [1::nat, 2, 3]) (constructor_body (Some limit3_options)))
     = [Debug (FlushSaturated 3), EmitFlush 0 [1, 2, 3] True] \<and>
   length_q (run (map Push [1::nat, 2, 3]) (constructor_body (Some limit3_options))) = 0"
proof -
  let ?w = "constructor_body (Some limit3_options) :: nat world"
  have a: "\<not> u_cargoMode ?w" "u_flushing ?w" "heap ?w (u_q ?w) = []"
    "[1::nat, 2, 3] \<noteq> []" "u_flushLimit ?w = int (length [1::nat, 2, 3])"
    "int (length [1::nat, 2, 3]) < u_safetyLimit ?w"
    by (simp_all add: limit3_options_def eval_defs)
  have c: "events ?w = []" "u_q ?w = 0"
    by (simp_all add: limit3_options_def eval_defs)
  have n: "2 < length [1::nat, 2, 3]" by simp
  from pushing_limit_items_flushes [OF a]
  have "(\<forall>n<length [1::nat, 2, 3]. events (run (map Push (take n [1, 2, 3])) ?w) = events ?w \<and>
            heap (run (map Push (take n [1, 2, 3])) ?w) (u_q ?w) = take n [1, 2, 3])"
    and r: "events (run (map Push [1, 2, 3]) ?w) = events ?w @
            [Debug (FlushSaturated (length [1::nat, 2, 3])), EmitFlush (u_q ?w) [1, 2, 3] True]"
       "length_q (run (map Push [1::nat, 2, 3]) ?w) = 0"
    by blast+
  with n have "events (run (map Push (take 2 [1::nat, 2, 3])) ?w) = events ?w \<and>
            heap (run (map Push (take 2 [1, 2, 3])) ?w) (u_q ?w) = take 2 [1, 2, 3]"
    by blast
  with a r c show ?thesis by simp
qed

text \<open>
  C6. After \<^verbatim>\<open>pause()\<close>, pushes and unshifts, however many, cause no flush and arm no
  timer. \<^verbatim>\<open>resume()\<close> then enables flushing and runs the flush-check, and if the buffer
  is saturated that check flushes at once: the whole buffer is emitted with the flag true and
  the buffer is empty when \<^verbatim>\<open>resume()\<close> returns.
\<close>

theorem pause_blocks_flush_until_resume:
  assumes "\<forall>c\<in>set cs. is_enqueue c" and "w1 = run cs (snd (pause w))"
  shows "\<not> u_flushing w1 \<and> u_timer w1 = None \<and>
         filter is_flush (events w1) = filter is_flush (events w) \<and>
         resume w1 = (This, u_flushCheck (w1\<lparr>u_flushing := True\<rparr>)) \<and>
         u_flushing (snd (resume w1)) \<and>
         (saturated w1 \<longrightarrow>
            events (snd (resume w1)) = events w1 @
              [Debug (FlushSaturated (length_q w1)), EmitFlush (u_q w1) (heap w1 (u_q w1)) True] \<and>
            length_q (snd (resume w1)) = 0)"
proof -
  have p: "\<not> u_flushing (snd (pause w))" "u_timer (snd (pause w)) = None"
    "events (snd (pause w)) = events w"
    by (simp_all add: pause_def)
  from paused_enqueues [OF p(1) assms(1)] p assms(2)
  have q: "\<not> u_flushing w1" "u_timer w1 = None"
    "filter is_flush (events w1) = filter is_flush (events w)"
    by simp_all
  have r: "resume w1 = (This, u_flushCheck (w1\<lparr>u_flushing := True\<rparr>))"
    by (simp add: resume_def)
  have f: "u_flushing (snd (resume w1))"
    by (simp add: resume_def u_flushCheck_def u_flush_eq setTimeout_def Let_def)
  have s: "events (snd (resume w1)) = events w1 @
              [Debug (FlushSaturated (length_q w1)), EmitFlush (u_q w1) (heap w1 (u_q w1)) True] \<and>
            length_q (snd (resume w1)) = 0" if "saturated w1"
    using that by (simp add: resume_def u_flushCheck_def u_flush_eq length_q_def)
  from q r f s show ?thesis by blast
qed

theorem pause_blocks_flush_until_resume_witness:
  "is_enqueue (Push (1::nat)) \<and> is_enqueue (Unshift (3::nat)) \<and>
   saturated (run [Push (1::nat), Push 2, Unshift 3, Push 4]
     (snd (pause (constructor_body (Some limit3_options))))) \<and>
   events (run [Push (1::nat), Push 2, Unshift 3, Push 4]
     (snd (pause (constructor_body (Some limit3_options))))) = [] \<and>
   events (snd (resume (run [Push (1::nat), Push 2, Unshift 3, Push 4]
     (snd (pause (constructor_body (Some limit3_options)))))))
     = [Debug (FlushSaturated 4), EmitFlush 0 [3, 1, 2, 4] True] \<and>
   length_q (snd (resume (run [Push (1::nat), Push 2, Unshift 3, Push 4]
     (snd (pause (constructor_body (Some limit3_options))))))) = 0"
proof -
  let ?w = "constructor_body (Some limit3_options) :: nat world"
  let ?cs = "[Push (1::nat), Push 2, Unshift 3, Push 4]"
  let ?w1 = "run ?cs (snd (pause ?w))"
  have a: "\<forall>c\<in>set ?cs. is_enqueue c" by simp
  have b: "saturated ?w1" "events ?w1 = []" "length_q ?w1 = 4" "u_q ?w1 = 0"
    "heap ?w1 0 = [3, 1, 2, 4]"
    by (simp_all add: limit3_options_def eval_defs)
  from pause_blocks_flush_until_resume [OF a refl, of ?w] b(1)
  have t: "events (snd (resume ?w1)) = events ?w1 @
      [Debug (FlushSaturated (length_q ?w1)), EmitFlush (u_q ?w1) (heap ?w1 (u_q ?w1)) True]"
    "length_q (snd (resume ?w1)) = 0"
    by blast+
  have "events (snd (resume ?w1)) = [Debug (FlushSaturated 4), EmitFlush 0 [3, 1, 2, 4] True]"
    using t(1) by (simp only: b append_Nil)
  with b(1,2) t(2) show ?thesis by simp
qed

text \<open>
  C7. A flush-check that runs with a timer pending and the buffer not saturated changes
  nothing, so the same handle stays pending. When pushes onto a queue that flushes and has
  no timer are neither dropped nor saturate the buffer, the first of them arms a timer, and
  after all of them that timer is still the pending one and no other has been created.
\<close>

theorem flushCheck_keeps_pending_timer:
  "(u_timer w = Some h \<and> \<not> saturated w \<longrightarrow> u_flushCheck w = w) \<and>
   (u_flushing w \<and> u_timer w = None \<and> xs \<noteq> [] \<and>
    int (length_q w) + int (length xs) \<le> u_safetyLimit w + 1 \<and>
    \<not> saturated (w\<lparr>heap := (heap w)(u_q w := heap w (u_q w) @ xs)\<rparr>) \<longrightarrow>
      u_timer (run (map Push [hd xs]) w) = Some (next_handle w) \<and>
      u_timer (run (map Push xs) w) = Some (next_handle w) \<and>
      timers (run (map Push xs) w) = (timers w)(next_handle w \<mapsto> u_intervalThreshold w) \<and>
      next_handle (run (map Push xs) w) = Suc (next_handle w) \<and>
      heap (run (map Push xs) w) (u_q w) = heap w (u_q w) @ xs \<and>
      events (run (map Push xs) w) = events w)"
proof (intro conjI impI)
  assume "u_timer w = Some h \<and> \<not> saturated w"
  then show "u_flushCheck w = w" by (simp add: u_flushCheck_def)
next
  assume a: "u_flushing w \<and> u_timer w = None \<and> xs \<noteq> [] \<and>
    int (length_q w) + int (length xs) \<le> u_safetyLimit w + 1 \<and>
    \<not> saturated (w\<lparr>heap := (heap w)(u_q w := heap w (u_q w) @ xs)\<rparr>)"
  then have R: "run (map Push xs) w =
      w\<lparr>heap := (heap w)(u_q w := heap w (u_q w) @ xs),
        u_timer := Some (next_handle w),
        timers := (timers w)(next_handle w \<mapsto> u_intervalThreshold w),
        next_handle := Suc (next_handle w)\<rparr>"
    using pushes_unsaturated [of w xs] by simp
  have "\<not> saturated (w\<lparr>heap := (heap w)(u_q w := heap w (u_q w) @ [hd xs])\<rparr>)"
  proof
    assume "saturated (w\<lparr>heap := (heap w)(u_q w := heap w (u_q w) @ [hd xs])\<rparr>)"
    moreover have "length (heap w (u_q w) @ [hd xs]) \<le> length (heap w (u_q w) @ xs)"
      using a by (cases xs) simp_all
    ultimately have "saturated (w\<lparr>heap := (heap w)(u_q w := heap w (u_q w) @ xs)\<rparr>)"
      by (rule saturated_mono)
    with a show False by simp
  qed
  moreover have "int (length_q w) + int (length [hd xs]) \<le> u_safetyLimit w + 1"
    using a by (cases xs) simp_all
  ultimately have R1: "run (map Push [hd xs]) w =
      w\<lparr>heap := (heap w)(u_q w := heap w (u_q w) @ [hd xs]),
        u_timer := Some (next_handle w),
        timers := (timers w)(next_handle w \<mapsto> u_intervalThreshold w),
        next_handle := Suc (next_handle w)\<rparr>"
    using a pushes_unsaturated [of w "[hd xs]"] by simp
  show "u_timer (run (map Push [hd xs]) w) = Some (next_handle w)"
    unfolding R1 by simp
  show "u_timer (run (map Push xs) w) = Some (next_handle w)"
    unfolding R by simp
  show "timers (run (map Push xs) w) = (timers w)(next_handle w \<mapsto> u_intervalThreshold w)"
    unfolding R by simp
  show "next_handle (run (map Push xs) w) = Suc (next_handle w)"
    unfolding R by simp
  show "heap (run (map Push xs) w) (u_q w) = heap w (u_q w) @ xs"
    unfolding R by simp
  show "events (run (map Push xs) w) = events w"
    unfolding R by simp
qed

theorem flushCheck_keeps_pending_timer_witness:
  "u_timer (run [Push (1::nat)] (constructor_body None)) = Some 0 \<and>
   \<not> saturated (run [Push (1::nat)] (constructor_body None)) \<and>
   u_flushCheck (run [Push (1::nat)] (constructor_body None))
     = run [Push (1::nat)] (constructor_body None) \<and>
   u_flushing (constructor_body None :: nat world) \<and>
   u_timer (constructor_body None :: nat world) = None \<and>
   u_timer (run (map Push [1::nat, 2, 3]) (constructor_body None)) = Some 0 \<and>
   next_handle (run (map Push [1::nat, 2, 3]) (constructor_body None)) = 1 \<and>
   heap (run (map Push [1::nat, 2, 3]) (constructor_body None)) 0 = [1, 2, 3]"
proof -
  let ?w = "constructor_body None :: nat world"
  let ?w1 = "run [Push (1::nat)] (constructor_body None)"
  have a: "u_timer ?w1 = Some 0 \<and> \<not> saturated ?w1"
    by (simp add: eval_defs)
  have b: "u_flushing ?w \<and> u_timer ?w = None \<and> [1::nat, 2, 3] \<noteq> [] \<and>
    int (length_q ?w) + int (length [1::nat, 2, 3]) \<le> u_safetyLimit ?w + 1 \<and>
    \<not> saturated (?w\<lparr>heap := (heap ?w)(u_q ?w := heap ?w (u_q ?w) @ [1, 2, 3])\<rparr>)"
    by (simp add: eval_defs)
  have c: "next_handle ?w = 0" "u_q ?w = 0" "heap ?w 0 = []"
    by (simp_all add: eval_defs)
  from flushCheck_keeps_pending_timer [of ?w1 0 "[1, 2, 3]"] a
  have 1: "u_flushCheck ?w1 = ?w1" by blast
  from flushCheck_keeps_pending_timer [of ?w 0 "[1, 2, 3]"] b
  have 2: "u_timer (run (map Push [1, 2, 3]) ?w) = Some (next_handle ?w)"
    "next_handle (run (map Push [1, 2, 3]) ?w) = Suc (next_handle ?w)"
    "heap (run (map Push [1, 2, 3]) ?w) (u_q ?w) = heap ?w (u_q ?w) @ [1, 2, 3]"
    by blast+
  from a b 1 2 c show ?thesis by simp
qed

text \<open>
  C8. A push or unshift on a queue whose buffer is already longer than \<open>safetyLimit\<close>
  returns the queue, and changes nothing but the debug log, which gets the message about
  the safety limit (with the constant 2000000 in it): the item is not queued, nothing is
  raised, and every field that steers later calls is as before.
\<close>

theorem overflow_drops_item:
  assumes "u_safetyLimit w < int (length_q w)"
  shows "push v w = (This, w\<lparr>events := events w @ [Debug (SafetyLimitReached 2000000)]\<rparr>) \<and>
         unshift v w = (This, w\<lparr>events := events w @ [Debug (SafetyLimitReached 2000000)]\<rparr>)"
  using assms by (simp add: push_def unshift_def debug_def SAFETY_QUEUE_LIMIT_def)

theorem overflow_drops_item_witness:
  "u_safetyLimit (run [Push (1::nat), Push 2] (constructor_body (Some small_cap_options)))
     < int (length_q (run [Push (1::nat), Push 2] (constructor_body (Some small_cap_options)))) \<and>
   heap (snd (push 3 (run [Push (1::nat), Push 2] (constructor_body (Some small_cap_options))))) 0 = [1, 2] \<and>
   fst (unshift 3 (run [Push (1::nat), Push 2] (constructor_body (Some small_cap_options)))) = This"
proof -
  have h: "u_safetyLimit (run [Push (1::nat), Push 2] (constructor_body (Some small_cap_options)))
     < int (length_q (run [Push (1::nat), Push 2] (constructor_body (Some small_cap_options))))"
    by (simp add: small_cap_options_def eval_defs)
  have e: "heap (run [Push (1::nat), Push 2] (constructor_body (Some small_cap_options))) 0 = [1, 2]"
    by (simp add: small_cap_options_def eval_defs)
  show ?thesis using h e overflow_drops_item [OF h, of 3] by simp
qed

text \<open>
  C9 (fails on the code). The claim: construction without options, or with falsy ones,
  succeeds and puts the defaults in place. \<^verbatim>\<open>new BatchedQueue()\<close> throws a
  ReferenceError at line 18 instead, the first read of \<^verbatim>\<open>this\<close> in a constructor of a
  derived class that never calls \<^verbatim>\<open>super()\<close>.
\<close>

theorem new_BatchedQueue_throws:
  "(new_BatchedQueue None :: error + nat world) = Inl ReferenceError"
  by (simp add: new_BatchedQueue_def constructor_def)

text \<open>
  C10. In a reachable state with an empty, unsaturated buffer, \<^verbatim>\<open>resume()\<close> leaves a
  timer pending although nothing is queued; with no timer pending before, it is a new one,
  set to the interval. When that timer fires on the buffer that is still empty, a non-cargo
  queue emits a \<^verbatim>\<open>flush\<close> event with an empty batch and the flag false.
\<close>

theorem resume_on_empty_arms_timer:
  assumes "reachable w" and "heap w (u_q w) = []" and "\<not> saturated w"
  shows "\<exists>h d. u_timer (snd (resume w)) = Some h \<and> timers (snd (resume w)) h = Some d \<and>
           (u_timer w = None \<longrightarrow> h = next_handle w \<and> d = u_intervalThreshold w) \<and>
           length_q (snd (resume w)) = 0 \<and>
           (\<not> u_cargoMode w \<longrightarrow>
              events (fire h (snd (resume w))) = events w @
                [Debug (FlushInterval (u_intervalThreshold w)), EmitFlush (u_q w) [] False])"
proof (cases "u_timer w")
  case None
  with assms(2,3) show ?thesis
    by (simp add: resume_def u_flushCheck_def setTimeout_def fire_def u_flush_eq clearTimeout_def
        length_q_def)
next
  case (Some h)
  from assms(1) have "dom (timers w) = set_option (u_timer w)"
    using reachable_timer by blast
  with Some obtain d where d: "timers w h = Some d" by auto
  with Some assms(2,3) show ?thesis
    by (simp add: resume_def u_flushCheck_def fire_def u_flush_eq clearTimeout_def
        length_q_def)
qed

theorem resume_on_empty_arms_timer_witness:
  "reachable (constructor_body None :: nat world) \<and>
   heap (constructor_body None :: nat world) (u_q (constructor_body None :: nat world)) = [] \<and>
   \<not> saturated (constructor_body None :: nat world) \<and>
   (\<exists>h d. u_timer (snd (resume (constructor_body None :: nat world))) = Some h \<and>
      timers (snd (resume (constructor_body None :: nat world))) h = Some d \<and>
      events (fire h (snd (resume (constructor_body None :: nat world))))
        = [Debug (FlushInterval 1000), EmitFlush 0 [] False])"
proof -
  have r: "reachable (constructor_body None :: nat world)" by (rule reachable_init)
  have e: "heap (constructor_body None :: nat world) (u_q (constructor_body None :: nat world)) = []"
    by (simp add: eval_defs)
  have s: "\<not> saturated (constructor_body None :: nat world)" by (simp add: eval_defs)
  have c: "\<not> u_cargoMode (constructor_body None :: nat world)"
    "events (constructor_body None :: nat world) = []"
    "u_intervalThreshold (constructor_body None :: nat world) = 1000"
    "u_q (constructor_body None :: nat world) = 0"
    by (simp_all add: eval_defs)
  from resume_on_empty_arms_timer [OF r e s] c r e s show ?thesis by auto
qed

end
